theory Spec2Isabelle
  imports Complex_Main "HOL-Library.Sublist" "HOL-Library.Multiset"
begin

section \<open>Strings\<close>

text \<open>
  A message is a \<^typ>\<open>string\<close>. The four search strings of \<open>recordError\<close> are ASCII, and
  JavaScript's \<open>toLowerCase\<close> produces the letters a..z from A..Z and from themselves only
  (the two further code points whose lower case contains an ASCII letter, U+0130 and
  U+212A, give \<open>i\<close> followed by a combining dot, and \<open>k\<close>, and neither can take part in
  an occurrence of one of the four search strings). So \<open>toLowerCase\<close> is modelled on
  the ASCII letters and leaves every other character as it is (a character outside
  ASCII being a sequence of \<^typ>\<open>char\<close>s above 127).
\<close>

definition toLowerChar :: "char \<Rightarrow> char" where
  "toLowerChar c =
     (let n = (of_char c :: nat) in if 65 \<le> n \<and> n \<le> 90 then char_of (n + 32) else c)"

definition toLowerCase :: "string \<Rightarrow> string" where
  "toLowerCase s = map toLowerChar s"

text \<open>The counterpart \<open>toUpperCase\<close>, used only to state that the classifier ignores case.\<close>

definition toUpperChar :: "char \<Rightarrow> char" where
  "toUpperChar c =
     (let n = (of_char c :: nat) in if 97 \<le> n \<and> n \<le> 122 then char_of (n - 32) else c)"

definition toUpperCase :: "string \<Rightarrow> string" where
  "toUpperCase s = map toUpperChar s"

text \<open>\<open>s.includes(searchString)\<close>: the search string occurs at some position of \<open>s\<close>.\<close>

fun includes_str :: "string \<Rightarrow> string \<Rightarrow> bool" where
  "includes_str [] searchString = (searchString = [])"
| "includes_str (c # cs) searchString =
     (prefix searchString (c # cs) \<or> includes_str cs searchString)"

section \<open>Metrics (src/utils/client.ts)\<close>

text \<open>
  The counters start at 0 and are only ever incremented: \<^typ>\<open>nat\<close>. A duration is a
  difference of two \<open>Date.now()\<close> readings, an integer number of milliseconds (negative
  when the clock is set back): \<^typ>\<open>int\<close>. The thrown \<open>Error\<close> is read through its
  \<open>message\<close> only.
\<close>

record Error =
  message :: string

record ErrorEntry =
  message :: string
  timestamp :: int

record LoadTestMetrics =
  totalRequests :: nat
  successfulRequests :: nat
  failedRequests :: nat
  rateLimitErrors :: nat
  otherErrors :: nat
  totalDurationMs :: int
  requestDurations :: "int list"
  errors :: "ErrorEntry list"

definition createMetrics :: LoadTestMetrics where
  "createMetrics =
     \<lparr>totalRequests = 0, successfulRequests = 0, failedRequests = 0, rateLimitErrors = 0,
      otherErrors = 0, totalDurationMs = 0, requestDurations = [], errors = []\<rparr>"

definition recordSuccess :: "LoadTestMetrics \<Rightarrow> int \<Rightarrow> LoadTestMetrics" where
  "recordSuccess metrics durationMs =
     (let m1 = metrics\<lparr>totalRequests := totalRequests metrics + 1\<rparr>;
          m2 = m1\<lparr>successfulRequests := successfulRequests m1 + 1\<rparr>
      in m2\<lparr>requestDurations := requestDurations m2 @ [durationMs]\<rparr>)"

text \<open>\<open>now\<close> is the reading of \<open>Date.now()\<close> taken when the entry is pushed.\<close>

definition recordError :: "LoadTestMetrics \<Rightarrow> Error \<Rightarrow> int \<Rightarrow> LoadTestMetrics" where
  "recordError metrics error now =
     (let m1 = metrics\<lparr>totalRequests := totalRequests metrics + 1\<rparr>;
          m2 = m1\<lparr>failedRequests := failedRequests m1 + 1\<rparr>;
          msg = toLowerCase (Error.message error);
          m3 = (if includes_str msg ''rate'' \<or> includes_str msg ''limit'' \<or> includes_str msg ''429''
                   \<or> includes_str msg ''too many''
                then m2\<lparr>rateLimitErrors := rateLimitErrors m2 + 1\<rparr>
                else m2\<lparr>otherErrors := otherErrors m2 + 1\<rparr>)
      in m3\<lparr>errors := errors m3 @
            [\<lparr>ErrorEntry.message = Error.message error, timestamp = now\<rparr>]\<rparr>)"

text \<open>
  The states a Metrics object goes through in a run: created by \<open>createMetrics\<close>, then
  changed by \<open>recordSuccess\<close> and \<open>recordError\<close> in any order and number, and by the
  assignment \<open>metrics.totalDurationMs = Date.now() - startTime\<close> of the scripts. Both
  functions are synchronous: a call runs to its end before any other handler runs, so
  these are all the states another piece of code can see.
\<close>

inductive reachable :: "LoadTestMetrics \<Rightarrow> bool" where
  created: "reachable createMetrics"
| success: "reachable m \<Longrightarrow> reachable (recordSuccess m durationMs)"
| failure: "reachable m \<Longrightarrow> reachable (recordError m error now)"
| finished: "reachable m \<Longrightarrow> reachable (m\<lparr>totalDurationMs := d\<rparr>)"

text \<open>
  A sequence of recorded outcomes, applied in order: a success with its duration, or a
  failure with its error and the clock reading of its entry.
\<close>

datatype outcome = Succeeded int | Failed Error int

fun record_all :: "outcome list \<Rightarrow> LoadTestMetrics \<Rightarrow> LoadTestMetrics" where
  "record_all [] metrics = metrics"
| "record_all (Succeeded durationMs # rest) metrics =
     record_all rest (recordSuccess metrics durationMs)"
| "record_all (Failed error now # rest) metrics =
     record_all rest (recordError metrics error now)"

text \<open>
  What one outcome adds: to the successes, to the sum of the durations, and (as
  \<open>recordError\<close> decides on a fresh Metrics) to each of the two error categories.
\<close>

fun successes :: "outcome \<Rightarrow> nat" where
  "successes (Succeeded d) = 1"
| "successes (Failed e t) = 0"

fun duration :: "outcome \<Rightarrow> int" where
  "duration (Succeeded d) = d"
| "duration (Failed e t) = 0"

fun rateLimited :: "outcome \<Rightarrow> nat" where
  "rateLimited (Succeeded d) = 0"
| "rateLimited (Failed e t) = rateLimitErrors (recordError createMetrics e t)"

fun others :: "outcome \<Rightarrow> nat" where
  "others (Succeeded d) = 0"
| "others (Failed e t) = otherErrors (recordError createMetrics e t)"

text \<open>
  The classifier as the specification words it, to compare \<open>recordError\<close> with: the
  lower-cased message contains one of the four substrings (\<^const>\<open>sublist\<close>: the message
  is the substring with something before and something after it).
\<close>

definition spec_rate_limit :: "string \<Rightarrow> bool" where
  "spec_rate_limit msg =
     (\<exists>searchString \<in> {''rate'', ''limit'', ''429'', ''too many''}.
        sublist searchString (toLowerCase msg))"

section \<open>JavaScript numbers\<close>

text \<open>
  The values a JavaScript number takes in the computations below. A finite value is an
  exact rational (\<open>Num 0\<close> is the positive zero); rounding to the nearest double,
  overflow and underflow are not modelled. The special values are: \<open>NaN\<close>, the two
  infinities and the negative zero. The operations follow IEEE 754 on them.
\<close>

datatype jsnum = NaN | PosInf | NegInf | NegZero | Num rat

fun is_inf :: "jsnum \<Rightarrow> bool" where
  "is_inf PosInf = True"
| "is_inf NegInf = True"
| "is_inf _ = False"

fun is_zero :: "jsnum \<Rightarrow> bool" where
  "is_zero NegZero = True"
| "is_zero (Num q) = (q = 0)"
| "is_zero _ = False"

fun is_finite :: "jsnum \<Rightarrow> bool" where
  "is_finite NegZero = True"
| "is_finite (Num q) = True"
| "is_finite _ = False"

text \<open>The sign bit (\<open>True\<close> for a negative sign) and the value of a finite number.\<close>

fun sign_of :: "jsnum \<Rightarrow> bool" where
  "sign_of NegInf = True"
| "sign_of NegZero = True"
| "sign_of (Num q) = (q < 0)"
| "sign_of _ = False"

fun value_of :: "jsnum \<Rightarrow> rat" where
  "value_of (Num q) = q"
| "value_of _ = 0"

definition zero_signed :: "bool \<Rightarrow> jsnum" where
  "zero_signed negative = (if negative then NegZero else Num 0)"

definition inf_signed :: "bool \<Rightarrow> jsnum" where
  "inf_signed negative = (if negative then NegInf else PosInf)"

definition js_div :: "jsnum \<Rightarrow> jsnum \<Rightarrow> jsnum" where
  "js_div a b =
     (if a = NaN \<or> b = NaN then NaN
      else if is_inf a then (if is_inf b then NaN else inf_signed (sign_of a \<noteq> sign_of b))
      else if is_inf b then zero_signed (sign_of a \<noteq> sign_of b)
      else if is_zero b then (if is_zero a then NaN else inf_signed (sign_of a \<noteq> sign_of b))
      else if is_zero a then zero_signed (sign_of a \<noteq> sign_of b)
      else Num (value_of a / value_of b))"

definition js_mul :: "jsnum \<Rightarrow> jsnum \<Rightarrow> jsnum" where
  "js_mul a b =
     (if a = NaN \<or> b = NaN then NaN
      else if is_inf a \<or> is_inf b
        then (if is_zero a \<or> is_zero b then NaN else inf_signed (sign_of a \<noteq> sign_of b))
      else if is_zero a \<or> is_zero b then zero_signed (sign_of a \<noteq> sign_of b)
      else Num (value_of a * value_of b))"

definition js_sub :: "jsnum \<Rightarrow> jsnum \<Rightarrow> jsnum" where
  "js_sub a b =
     (if a = NaN \<or> b = NaN then NaN
      else if is_inf a then (if is_inf b \<and> sign_of a = sign_of b then NaN else a)
      else if is_inf b then inf_signed (\<not> sign_of b)
      else if is_zero a \<and> is_zero b then zero_signed (sign_of a \<and> \<not> sign_of b)
      else Num (value_of a - value_of b))"

text \<open>\<open>a < b\<close>: false when either side is \<open>NaN\<close>; the two zeros are equal.\<close>

definition js_lt :: "jsnum \<Rightarrow> jsnum \<Rightarrow> bool" where
  "js_lt a b =
     (if a = NaN \<or> b = NaN then False
      else if a = PosInf \<or> b = NegInf then False
      else if a = NegInf \<or> b = PosInf then True
      else value_of a < value_of b)"

section \<open>The summary (printMetricsSummary, src/utils/client.ts)\<close>

text \<open>
  \<open>xs[i]\<close> is \<open>undefined\<close> outside the array, and \<open>xs[i] ?? 0\<close> is then 0.
\<close>

definition at_index :: "'a list \<Rightarrow> nat \<Rightarrow> 'a option" where
  "at_index xs i = (if i < length xs then Some (xs ! i) else None)"

definition nullish :: "'a option \<Rightarrow> 'a \<Rightarrow> 'a" where
  "nullish v d = (case v of None \<Rightarrow> d | Some x \<Rightarrow> x)"

text \<open>
  \<open>sortedDurations[Math.floor(sortedDurations.length * q)] ?? 0\<close> for the literals
  \<open>q\<close> = 0.5, 0.95, 0.99, taken as the rationals they denote. The double nearest to 0.95
  (to 0.99) lies below it by less than 5e-17, and an array has fewer than 2^32
  elements; the rounded product then has the same floor as the exact one.
\<close>

definition percentile :: "int list \<Rightarrow> rat \<Rightarrow> int" where
  "percentile sortedDurations q =
     nullish (at_index sortedDurations (nat \<lfloor>of_nat (length sortedDurations) * q\<rfloor>)) 0"

text \<open>
  The numbers \<open>printMetricsSummary\<close> computes and prints, before their formatting by
  \<open>toFixed\<close>: the fields are named after the local constants and the printed lines.
  The counters and \<open>totalDurationMs\<close> are printed as they are. \<open>firstErrors\<close> are the
  messages of \<open>errors.slice(0, 5)\<close>, each cut by \<open>slice(0, 100)\<close>.
\<close>

record MetricsSummary =
  avgDuration :: jsnum
  p50 :: int
  p95 :: int
  p99 :: int
  successfulPct :: jsnum
  failedPct :: jsnum
  throughput :: jsnum
  firstErrors :: "string list"

definition printMetricsSummary :: "LoadTestMetrics \<Rightarrow> MetricsSummary" where
  "printMetricsSummary metrics =
     (let avgDuration =
            (if length (requestDurations metrics) > 0
             then js_div (Num (of_int (foldl (\<lambda>a b. a + b) 0 (requestDurations metrics))))
                         (Num (of_nat (length (requestDurations metrics))))
             else Num 0);
          sortedDurations = sort (requestDurations metrics)
      in \<lparr>avgDuration = avgDuration,
          p50 = percentile sortedDurations (5 / 10),
          p95 = percentile sortedDurations (95 / 100),
          p99 = percentile sortedDurations (99 / 100),
          successfulPct =
            js_mul (js_div (Num (of_nat (successfulRequests metrics)))
                           (Num (of_nat (totalRequests metrics)))) (Num 100),
          failedPct =
            js_mul (js_div (Num (of_nat (failedRequests metrics)))
                           (Num (of_nat (totalRequests metrics)))) (Num 100),
          throughput =
            js_div (Num (of_nat (totalRequests metrics)))
                   (js_div (Num (of_int (totalDurationMs metrics))) (Num 1000)),
          firstErrors = map (\<lambda>e. take 100 (ErrorEntry.message e)) (take 5 (errors metrics))\<rparr>)"

section \<open>The scripts (src/scripts/load-quotes.ts, src/scripts/load-pool-reads.ts)\<close>

subsection \<open>One request\<close>

text \<open>
  The promise of an operation settles once: fulfilled with a value, or rejected with the
  error. A handler that returns gives a fulfilled promise, one that throws a rejected
  one; the handlers here change the Metrics, so a promise is carried with the Metrics
  at the time it settles. (The operations are \<open>async\<close> functions: they throw nothing
  at the call, and a request is looked at from the moment its operation settles.)
\<close>

datatype 'a settled = Fulfilled 'a | Rejected Error

definition promise_then ::
  "'a settled \<times> LoadTestMetrics \<Rightarrow> ('a \<Rightarrow> LoadTestMetrics \<Rightarrow> unit settled \<times> LoadTestMetrics)
     \<Rightarrow> unit settled \<times> LoadTestMetrics" where
  "promise_then p onFulfilled =
     (case fst p of
        Fulfilled v \<Rightarrow> onFulfilled v (snd p)
      | Rejected e \<Rightarrow> (Rejected e, snd p))"

definition promise_catch ::
  "unit settled \<times> LoadTestMetrics \<Rightarrow> (Error \<Rightarrow> LoadTestMetrics \<Rightarrow> unit settled \<times> LoadTestMetrics)
     \<Rightarrow> unit settled \<times> LoadTestMetrics" where
  "promise_catch p onRejected =
     (case fst p of
        Fulfilled v \<Rightarrow> (Fulfilled v, snd p)
      | Rejected e \<Rightarrow> onRejected e (snd p))"

text \<open>
  \<open>operation().then(() => recordSuccess(metrics, Date.now() - reqStart))
  .catch((error) => recordError(metrics, error as Error))\<close>, where \<open>outcome\<close> is how the
  operation's promise settles and \<open>now\<close> the reading of \<open>Date.now()\<close> in the handler
  that runs.
\<close>

definition request ::
  "'a settled \<Rightarrow> int \<Rightarrow> int \<Rightarrow> LoadTestMetrics \<Rightarrow> unit settled \<times> LoadTestMetrics" where
  "request outcome reqStart now metrics =
     promise_catch
       (promise_then (outcome, metrics)
          (\<lambda>_ m. (Fulfilled (), recordSuccess m (now - reqStart))))
       (\<lambda>error m. (Fulfilled (), recordError m error now))"

text \<open>
  The requests of a run, in the order in which they settle, each with its \<open>reqStart\<close>
  and the clock reading of its handler; and \<open>Promise.all\<close> over their promises.
\<close>

fun settle_all ::
  "('a settled \<times> int \<times> int) list \<Rightarrow> LoadTestMetrics \<Rightarrow> unit settled list \<times> LoadTestMetrics" where
  "settle_all [] metrics = ([], metrics)"
| "settle_all ((outcome, reqStart, now) # rest) metrics =
     (let (p, m1) = request outcome reqStart now metrics;
          (ps, m2) = settle_all rest m1
      in (p # ps, m2))"

fun promise_all :: "'a settled list \<Rightarrow> 'a list settled" where
  "promise_all [] = Fulfilled []"
| "promise_all (Rejected e # ps) = Rejected e"
| "promise_all (Fulfilled v # ps) =
     (case promise_all ps of Fulfilled vs \<Rightarrow> Fulfilled (v # vs) | Rejected e \<Rightarrow> Rejected e)"

subsection \<open>The sustained loop\<close>

text \<open>
  \<open>options.rps\<close> is the default or a result of \<open>parseInt\<close> (an integer, \<open>NaN\<close> or the
  negative zero), and \<open>intervalMs = 1000 / options.rps\<close>.
\<close>

definition intervalMs :: "jsnum \<Rightarrow> jsnum" where
  "intervalMs rps = js_div (Num 1000) rps"

text \<open>
  The end of an iteration: \<open>elapsed = Date.now() - reqStart\<close>, and a \<open>setTimeout\<close> of
  \<open>intervalMs - elapsed\<close> is awaited when \<open>elapsed < intervalMs\<close>; \<open>None\<close> is no wait.
\<close>

definition nextDelay :: "jsnum \<Rightarrow> int \<Rightarrow> int \<Rightarrow> jsnum option" where
  "nextDelay interval reqStart now =
     (let elapsed = Num (of_int (now - reqStart))
      in if js_lt elapsed interval then Some (js_sub interval elapsed) else None)"

text \<open>
  The loop \<open>while (Date.now() < endTime)\<close> over the readings of the clock it takes, in
  order: the loop test, \<open>reqStart\<close>, and the reading for \<open>elapsed\<close> (the reading of the
  progress line is only printed and is left out). The loop is followed as far as the
  readings go; it yields the dispatches and the waits in the order they happen.
\<close>

datatype action = Dispatch int | Sleep jsnum

fun sustained :: "jsnum \<Rightarrow> jsnum \<Rightarrow> int list \<Rightarrow> action list" where
  "sustained interval endTime (t # reqStart # now # clock) =
     (if js_lt (Num (of_int t)) endTime
      then Dispatch reqStart
             # (case nextDelay interval reqStart now of Some d \<Rightarrow> [Sleep d] | None \<Rightarrow> [])
             @ sustained interval endTime clock
      else [])"
| "sustained interval endTime clock = []"

fun delays :: "action list \<Rightarrow> jsnum list" where
  "delays [] = []"
| "delays (Sleep d # as) = d # delays as"
| "delays (Dispatch t # as) = delays as"

subsection \<open>The exit code\<close>

text \<open>
  After the summary, \<open>main\<close> calls \<open>process.exit(1)\<close> when \<open>metrics.rateLimitErrors > 0\<close>,
  then when \<open>metrics.failedRequests > 0\<close>, and returns otherwise (exit code 0).
\<close>

definition exitCode :: "LoadTestMetrics \<Rightarrow> nat" where
  "exitCode metrics =
     (if rateLimitErrors metrics > 0 then 1
      else if failedRequests metrics > 0 then 1
      else 0)"

section \<open>The summary over a store of arrays\<close>

text \<open>
  \<open>metrics.requestDurations\<close> is a reference to an array, and \<open>sort\<close> sorts the array
  it is called on in place. To see which array that is, the arrays live in a store, a
  reference being a position in it: \<open>[...a]\<close> allocates a new array with the elements of
  \<open>a\<close>, and \<open>a.sort((a, b) => a - b)\<close> overwrites \<open>a\<close>.
\<close>

type_synonym ref = nat

type_synonym store = "int list list"

definition spread :: "store \<Rightarrow> ref \<Rightarrow> store \<times> ref" where
  "spread h a = (h @ [h ! a], length h)"

definition sort_array :: "store \<Rightarrow> ref \<Rightarrow> store" where
  "sort_array h a = h[a := sort (h ! a)]"

text \<open>
  \<open>printMetricsSummary\<close> for a Metrics object whose \<open>requestDurations\<close> is the array at
  \<open>r\<close>; its other fields are read from \<open>metrics\<close>. It returns the store it leaves.
\<close>

definition printMetricsSummary_store ::
  "store \<Rightarrow> ref \<Rightarrow> LoadTestMetrics \<Rightarrow> MetricsSummary \<times> store" where
  "printMetricsSummary_store h r metrics =
     (let avgDuration =
            (if length (h ! r) > 0
             then js_div (Num (of_int (foldl (\<lambda>a b. a + b) 0 (h ! r))))
                         (Num (of_nat (length (h ! r))))
             else Num 0);
          (h1, sortedDurations) = spread h r;
          h2 = sort_array h1 sortedDurations
      in (\<lparr>avgDuration = avgDuration,
           p50 = percentile (h2 ! sortedDurations) (5 / 10),
           p95 = percentile (h2 ! sortedDurations) (95 / 100),
           p99 = percentile (h2 ! sortedDurations) (99 / 100),
           successfulPct =
             js_mul (js_div (Num (of_nat (successfulRequests metrics)))
                            (Num (of_nat (totalRequests metrics)))) (Num 100),
           failedPct =
             js_mul (js_div (Num (of_nat (failedRequests metrics)))
                            (Num (of_nat (totalRequests metrics)))) (Num 100),
           throughput =
             js_div (Num (of_nat (totalRequests metrics)))
                    (js_div (Num (of_int (totalDurationMs metrics))) (Num 1000)),
           firstErrors = map (\<lambda>e. take 100 (ErrorEntry.message e)) (take 5 (errors metrics))\<rparr>,
          h2))"

section \<open>The aggregator's invariants\<close>

text \<open>
  C1. In every state of a run (the fresh Metrics and the state after any sequence of
  \<open>recordSuccess\<close> and \<open>recordError\<close> calls) the total is the sum of successes and
  failures, the failures are the sum of the two error categories, and the two sequences
  are as long as the counters of successes and of failures say.
\<close>

theorem metrics_invariants:
  assumes "reachable m"
  shows "totalRequests m = successfulRequests m + failedRequests m
       \<and> failedRequests m = rateLimitErrors m + otherErrors m
       \<and> length (requestDurations m) = successfulRequests m
       \<and> length (errors m) = failedRequests m"
  using assms
proof (induction rule: reachable.induct)
  case created
  show ?case by (simp add: createMetrics_def)
next
  case (success m durationMs)
  then show ?case by (simp add: recordSuccess_def)
next
  case (failure m error now)
  then show ?case by (simp add: recordError_def Let_def)
next
  case (finished m d)
  then show ?case by simp
qed

theorem metrics_invariants_witness:
  "reachable (recordError (recordSuccess createMetrics 12) \<lparr>Error.message = ''HTTP 429''\<rparr> 7)
   \<and> totalRequests (recordError (recordSuccess createMetrics 12) \<lparr>Error.message = ''HTTP 429''\<rparr> 7) = 2
   \<and> successfulRequests (recordError (recordSuccess createMetrics 12) \<lparr>Error.message = ''HTTP 429''\<rparr> 7) = 1
   \<and> length (requestDurations (recordError (recordSuccess createMetrics 12) \<lparr>Error.message = ''HTTP 429''\<rparr> 7)) = 1
   \<and> length (errors (recordError (recordSuccess createMetrics 12) \<lparr>Error.message = ''HTTP 429''\<rparr> 7)) = 1"
proof -
  have r: "reachable (recordError (recordSuccess createMetrics 12) \<lparr>Error.message = ''HTTP 429''\<rparr> 7)"
    by (intro reachable.failure reachable.success reachable.created)
  have f: "failedRequests (recordError (recordSuccess createMetrics 12) \<lparr>Error.message = ''HTTP 429''\<rparr> 7) = 1"
    by (simp add: recordError_def recordSuccess_def createMetrics_def Let_def)
  have s: "successfulRequests (recordError (recordSuccess createMetrics 12) \<lparr>Error.message = ''HTTP 429''\<rparr> 7) = 1"
    by (simp add: recordError_def recordSuccess_def createMetrics_def Let_def)
  from metrics_invariants [OF r] r f s show ?thesis by simp
qed

section \<open>What one call changes\<close>

text \<open>
  C9. \<open>recordSuccess\<close> changes \<open>totalRequests\<close>, \<open>successfulRequests\<close> and
  \<open>requestDurations\<close> and nothing else; \<open>recordError\<close> changes \<open>totalRequests\<close>,
  \<open>failedRequests\<close>, exactly one of the two category counters, and \<open>errors\<close>, and
  nothing else; the entry it appends holds the message as given, not lower-cased.
\<close>

theorem record_frame:
  "recordSuccess m d =
     m\<lparr>totalRequests := totalRequests m + 1, successfulRequests := successfulRequests m + 1,
       requestDurations := requestDurations m @ [d]\<rparr>
   \<and> failedRequests (recordSuccess m d) = failedRequests m
   \<and> rateLimitErrors (recordSuccess m d) = rateLimitErrors m
   \<and> otherErrors (recordSuccess m d) = otherErrors m
   \<and> errors (recordSuccess m d) = errors m
   \<and> totalDurationMs (recordSuccess m d) = totalDurationMs m
   \<and> recordError m e now =
     m\<lparr>totalRequests := totalRequests m + 1, failedRequests := failedRequests m + 1,
       rateLimitErrors := rateLimitErrors (recordError m e now),
       otherErrors := otherErrors (recordError m e now),
       errors := errors m @ [\<lparr>ErrorEntry.message = Error.message e, timestamp = now\<rparr>]\<rparr>
   \<and> (rateLimitErrors (recordError m e now) = rateLimitErrors m + 1
        \<and> otherErrors (recordError m e now) = otherErrors m
      \<or> rateLimitErrors (recordError m e now) = rateLimitErrors m
        \<and> otherErrors (recordError m e now) = otherErrors m + 1)
   \<and> successfulRequests (recordError m e now) = successfulRequests m
   \<and> requestDurations (recordError m e now) = requestDurations m
   \<and> totalDurationMs (recordError m e now) = totalDurationMs m"
  by (simp add: recordSuccess_def recordError_def Let_def)

section \<open>The classifier\<close>

lemma includes_str_sublist: "includes_str s sub = sublist sub s"
  by (induction s) (simp_all add: sublist_Cons_right)

lemma toLowerChar_char_of:
  fixes k :: nat
  assumes "65 \<le> k" "k \<le> 90"
  shows "toLowerChar (char_of k) = char_of (k + 32)"
proof -
  have "k mod 256 = k" using assms by simp
  then show ?thesis using assms by (simp add: toLowerChar_def of_char_of)
qed

lemma toLowerChar_toUpperChar: "toLowerChar (toUpperChar c) = toLowerChar c"
proof (cases "97 \<le> (of_char c :: nat) \<and> (of_char c :: nat) \<le> 122")
  case True
  define n where "n = (of_char c :: nat)"
  have n: "97 \<le> n" "n \<le> 122" using True by (simp_all add: n_def)
  have "toUpperChar c = char_of (n - 32)"
    using True by (simp add: toUpperChar_def n_def)
  then have "toLowerChar (toUpperChar c) = char_of (n - 32 + 32)"
    using n by (simp add: toLowerChar_char_of)
  also have "\<dots> = c" using n by (simp add: n_def)
  also have "c = toLowerChar c" using True by (simp add: toLowerChar_def)
  finally show ?thesis .
next
  case False
  then show ?thesis by (auto simp add: toUpperChar_def Let_def)
qed

lemma toLowerCase_toUpperCase: "toLowerCase (toUpperCase s) = toLowerCase s"
  by (simp add: toLowerCase_def toUpperCase_def toLowerChar_toUpperChar)

lemma recordError_rate_limit:
  "spec_rate_limit (Error.message e) \<Longrightarrow>
   rateLimitErrors (recordError m e now) = rateLimitErrors m + 1 \<and>
   otherErrors (recordError m e now) = otherErrors m"
  by (auto simp add: spec_rate_limit_def recordError_def Let_def includes_str_sublist)

lemma recordError_other:
  "\<not> spec_rate_limit (Error.message e) \<Longrightarrow>
   rateLimitErrors (recordError m e now) = rateLimitErrors m \<and>
   otherErrors (recordError m e now) = otherErrors m + 1"
  by (auto simp add: spec_rate_limit_def recordError_def Let_def includes_str_sublist)

lemma spec_rate_limit_upper: "spec_rate_limit (toUpperCase msg) = spec_rate_limit msg"
  by (simp add: spec_rate_limit_def toLowerCase_toUpperCase)

lemma recordError_429:
  "rateLimitErrors (recordError m \<lparr>Error.message = ''429 Too Many Requests''\<rparr> now)
     = rateLimitErrors m + 1
   \<and> otherErrors (recordError m \<lparr>Error.message = ''429 Too Many Requests''\<rparr> now)
     = otherErrors m"
  by (simp add: recordError_def Let_def toLowerCase_def toLowerChar_def)

lemma recordError_refused:
  "rateLimitErrors (recordError m \<lparr>Error.message = ''connection refused''\<rparr> now)
     = rateLimitErrors m
   \<and> otherErrors (recordError m \<lparr>Error.message = ''connection refused''\<rparr> now)
     = otherErrors m + 1"
  by (simp add: recordError_def Let_def toLowerCase_def toLowerChar_def)

lemma recordError_upper:
  "rateLimitErrors (recordError m (e\<lparr>Error.message := toUpperCase (Error.message e)\<rparr>) now)
     = rateLimitErrors (recordError m e now)
   \<and> otherErrors (recordError m (e\<lparr>Error.message := toUpperCase (Error.message e)\<rparr>) now)
     = otherErrors (recordError m e now)"
  by (simp add: recordError_def Let_def toLowerCase_toUpperCase)

text \<open>
  C2. \<open>recordError\<close> counts a message as a rate-limit error exactly when the lower-cased
  message contains "rate", "limit", "429" or "too many", and as an other error
  otherwise; "429 Too Many Requests" is a rate-limit error, "connection refused" an
  other error, and the case of the letters does not matter.
\<close>

theorem recordError_classifies:
  "(if spec_rate_limit (Error.message e)
    then rateLimitErrors (recordError m e now) = rateLimitErrors m + 1
       \<and> otherErrors (recordError m e now) = otherErrors m
    else rateLimitErrors (recordError m e now) = rateLimitErrors m
       \<and> otherErrors (recordError m e now) = otherErrors m + 1)
   \<and> rateLimitErrors (recordError m \<lparr>Error.message = ''429 Too Many Requests''\<rparr> now)
       = rateLimitErrors m + 1
   \<and> otherErrors (recordError m \<lparr>Error.message = ''429 Too Many Requests''\<rparr> now)
       = otherErrors m
   \<and> rateLimitErrors (recordError m \<lparr>Error.message = ''connection refused''\<rparr> now)
       = rateLimitErrors m
   \<and> otherErrors (recordError m \<lparr>Error.message = ''connection refused''\<rparr> now)
       = otherErrors m + 1
   \<and> rateLimitErrors (recordError m (e\<lparr>Error.message := toUpperCase (Error.message e)\<rparr>) now)
       = rateLimitErrors (recordError m e now)
   \<and> otherErrors (recordError m (e\<lparr>Error.message := toUpperCase (Error.message e)\<rparr>) now)
       = otherErrors (recordError m e now)
   \<and> (\<forall>e'. toLowerCase (Error.message e') = toLowerCase (Error.message e) \<longrightarrow>
         rateLimitErrors (recordError m e' now) = rateLimitErrors (recordError m e now)
       \<and> otherErrors (recordError m e' now) = otherErrors (recordError m e now))"
proof -
  have same: "\<forall>e'. toLowerCase (Error.message e') = toLowerCase (Error.message e) \<longrightarrow>
         rateLimitErrors (recordError m e' now) = rateLimitErrors (recordError m e now)
       \<and> otherErrors (recordError m e' now) = otherErrors (recordError m e now)"
    by (simp add: recordError_def Let_def)
  have cls: "if spec_rate_limit (Error.message e)
    then rateLimitErrors (recordError m e now) = rateLimitErrors m + 1
       \<and> otherErrors (recordError m e now) = otherErrors m
    else rateLimitErrors (recordError m e now) = rateLimitErrors m
       \<and> otherErrors (recordError m e now) = otherErrors m + 1"
    using recordError_rate_limit [of e m now] recordError_other [of e m now] by presburger
  from cls same recordError_429 [of m now] recordError_refused [of m now] recordError_upper [of m e now]
  show ?thesis by blast
qed

theorem recordError_classifies_witness:
  "spec_rate_limit ''Rate Limit Exceeded''
   \<and> rateLimitErrors (recordError createMetrics \<lparr>Error.message = ''Rate Limit Exceeded''\<rparr> 0) = 1
   \<and> otherErrors (recordError createMetrics \<lparr>Error.message = ''Rate Limit Exceeded''\<rparr> 0) = 0
   \<and> toLowerCase ''RATE LIMIT EXCEEDED'' = toLowerCase ''Rate Limit Exceeded''
   \<and> rateLimitErrors (recordError createMetrics \<lparr>Error.message = ''RATE LIMIT EXCEEDED''\<rparr> 0) = 1"
proof -
  have sp: "spec_rate_limit ''Rate Limit Exceeded''"
    by code_simp
  have up: "toLowerCase ''RATE LIMIT EXCEEDED'' = toLowerCase ''Rate Limit Exceeded''"
    by code_simp
  have z: "rateLimitErrors createMetrics = 0" "otherErrors createMetrics = 0"
    by (simp_all add: createMetrics_def)
  from recordError_classifies
         [of "\<lparr>Error.message = ''Rate Limit Exceeded''\<rparr>" createMetrics 0] sp
  have a: "rateLimitErrors (recordError createMetrics \<lparr>Error.message = ''Rate Limit Exceeded''\<rparr> 0) = 1
         \<and> otherErrors (recordError createMetrics \<lparr>Error.message = ''Rate Limit Exceeded''\<rparr> 0) = 0"
    by (simp add: z)
  note same = recordError_classifies
         [of "\<lparr>Error.message = ''Rate Limit Exceeded''\<rparr>" createMetrics 0,
          THEN conjunct2, THEN conjunct2, THEN conjunct2, THEN conjunct2, THEN conjunct2,
          THEN conjunct2, THEN conjunct2, rule_format,
          of "\<lparr>Error.message = ''RATE LIMIT EXCEEDED''\<rparr>"]
  have up': "toLowerCase (Error.message \<lparr>Error.message = ''RATE LIMIT EXCEEDED''\<rparr>)
               = toLowerCase (Error.message \<lparr>Error.message = ''Rate Limit Exceeded''\<rparr>)"
    by (simp only: Error.simps up)
  have b: "rateLimitErrors (recordError createMetrics \<lparr>Error.message = ''RATE LIMIT EXCEEDED''\<rparr> 0) = 1"
    using same [OF up'] a by (simp only:)
  from sp a up b show ?thesis by blast
qed

section \<open>The summary's statistics\<close>

lemma foldl_plus_sum_list: "foldl (\<lambda>a b. a + b) a xs = a + sum_list (xs :: int list)"
  by (induction xs arbitrary: a) simp_all

lemma js_div_Num: "0 < b \<Longrightarrow> js_div (Num a) (Num b) = Num (a / b)"
  by (simp add: js_div_def zero_signed_def)

lemma js_div_by_zero:
  "0 \<le> a \<Longrightarrow> js_div (Num a) (Num 0) = (if a = 0 then NaN else PosInf)"
  by (simp add: js_div_def inf_signed_def)

lemma js_mul_100:
  "js_mul (Num a) (Num 100) = Num (a * 100)"
  "js_mul NaN (Num 100) = NaN"
  "js_mul PosInf (Num 100) = PosInf"
  by (simp_all add: js_mul_def zero_signed_def inf_signed_def)

lemma avgDuration_mean:
  "avgDuration (printMetricsSummary m) =
     (if requestDurations m = [] then Num 0
      else Num (of_int (sum_list (requestDurations m)) / of_nat (length (requestDurations m))))"
  by (simp add: printMetricsSummary_def Let_def js_div_Num foldl_plus_sum_list)

subsection \<open>Percentiles\<close>

lemma percentile_50:
  "percentile xs (5 / 10) = nullish (at_index xs (length xs * 5 div 10)) 0"
proof -
  have "nat \<lfloor>of_nat (length xs) * (5 / 10 :: rat)\<rfloor> = length xs * 5 div 10" by linarith
  then show ?thesis unfolding percentile_def by (simp only:)
qed

lemma percentile_95:
  "percentile xs (95 / 100) = nullish (at_index xs (length xs * 95 div 100)) 0"
proof -
  have "nat \<lfloor>of_nat (length xs) * (95 / 100 :: rat)\<rfloor> = length xs * 95 div 100" by linarith
  then show ?thesis unfolding percentile_def by (simp only:)
qed

lemma percentile_99:
  "percentile xs (99 / 100) = nullish (at_index xs (length xs * 99 div 100)) 0"
proof -
  have "nat \<lfloor>of_nat (length xs) * (99 / 100 :: rat)\<rfloor> = length xs * 99 div 100" by linarith
  then show ?thesis unfolding percentile_def by (simp only:)
qed

lemma summary_percentiles:
  "p50 (printMetricsSummary m) = percentile (sort (requestDurations m)) (5 / 10)"
  "p95 (printMetricsSummary m) = percentile (sort (requestDurations m)) (95 / 100)"
  "p99 (printMetricsSummary m) = percentile (sort (requestDurations m)) (99 / 100)"
  by (simp_all only: printMetricsSummary_def Let_def MetricsSummary.simps)

lemma summary_percentiles_div:
  "p50 (printMetricsSummary m) =
     nullish (at_index (sort (requestDurations m)) (length (requestDurations m) * 5 div 10)) 0"
  "p95 (printMetricsSummary m) =
     nullish (at_index (sort (requestDurations m)) (length (requestDurations m) * 95 div 100)) 0"
  "p99 (printMetricsSummary m) =
     nullish (at_index (sort (requestDurations m)) (length (requestDurations m) * 99 div 100)) 0"
  by (simp_all only: summary_percentiles percentile_50 percentile_95 percentile_99 length_sort)

lemma percentile_of_sorted:
  assumes "sorted ys" "mset ys = mset xs"
  shows "percentile (sort xs) q =
           (if nat \<lfloor>of_nat (length ys) * q\<rfloor> < length ys
            then ys ! nat \<lfloor>of_nat (length ys) * q\<rfloor> else 0)"
proof -
  have "sort xs = ys" using assms by (simp add: properties_for_sort)
  then show ?thesis by (simp add: percentile_def at_index_def nullish_def)
qed

text \<open>The index is inside a non-empty array: only the empty one gives "no value".\<close>

lemma percentile_index_in_range:
  "xs \<noteq> [] \<Longrightarrow> length xs * 5 div 10 < length xs"
  "xs \<noteq> [] \<Longrightarrow> length xs * 95 div 100 < length xs"
  "xs \<noteq> [] \<Longrightarrow> length xs * 99 div 100 < length xs"
  by (cases xs; simp)+

text \<open>
  C3. For any ascending arrangement \<open>ys\<close> of the recorded durations, each reported
  percentile is the element of \<open>ys\<close> at index \<open>floor (length * q)\<close> for \<open>q\<close> = 0.50,
  0.95, 0.99, and 0 when that index is outside \<open>ys\<close>; the durations 10, 20, 30, 40, 50
  give p50 = 30 and p95 = 50, and no durations give 0 for all three.
\<close>

theorem percentiles_nearest_rank:
  "(\<forall>ys. sorted ys \<and> mset ys = mset (requestDurations m) \<longrightarrow>
       p50 (printMetricsSummary m) =
         (if nat \<lfloor>of_nat (length ys) * (50 / 100 :: rat)\<rfloor> < length ys
          then ys ! nat \<lfloor>of_nat (length ys) * (50 / 100 :: rat)\<rfloor> else 0)
     \<and> p95 (printMetricsSummary m) =
         (if nat \<lfloor>of_nat (length ys) * (95 / 100 :: rat)\<rfloor> < length ys
          then ys ! nat \<lfloor>of_nat (length ys) * (95 / 100 :: rat)\<rfloor> else 0)
     \<and> p99 (printMetricsSummary m) =
         (if nat \<lfloor>of_nat (length ys) * (99 / 100 :: rat)\<rfloor> < length ys
          then ys ! nat \<lfloor>of_nat (length ys) * (99 / 100 :: rat)\<rfloor> else 0))
   \<and> (requestDurations m = [10, 20, 30, 40, 50] \<longrightarrow>
         p50 (printMetricsSummary m) = 30 \<and> p95 (printMetricsSummary m) = 50)
   \<and> (requestDurations m = [] \<longrightarrow>
         p50 (printMetricsSummary m) = 0 \<and> p95 (printMetricsSummary m) = 0
       \<and> p99 (printMetricsSummary m) = 0)"
proof (intro conjI allI impI)
  fix ys
  assume ys: "sorted ys \<and> mset ys = mset (requestDurations m)"
  have half: "(50 / 100 :: rat) = 5 / 10" by simp
  show "p50 (printMetricsSummary m) =
         (if nat \<lfloor>of_nat (length ys) * (50 / 100 :: rat)\<rfloor> < length ys
          then ys ! nat \<lfloor>of_nat (length ys) * (50 / 100 :: rat)\<rfloor> else 0)"
    using ys by (simp only: half summary_percentiles percentile_of_sorted)
  show "p95 (printMetricsSummary m) =
         (if nat \<lfloor>of_nat (length ys) * (95 / 100 :: rat)\<rfloor> < length ys
          then ys ! nat \<lfloor>of_nat (length ys) * (95 / 100 :: rat)\<rfloor> else 0)"
    using ys by (simp only: summary_percentiles percentile_of_sorted)
  show "p99 (printMetricsSummary m) =
         (if nat \<lfloor>of_nat (length ys) * (99 / 100 :: rat)\<rfloor> < length ys
          then ys ! nat \<lfloor>of_nat (length ys) * (99 / 100 :: rat)\<rfloor> else 0)"
    using ys by (simp only: summary_percentiles percentile_of_sorted)
next
  assume "requestDurations m = [10, 20, 30, 40, 50]"
  then show "p50 (printMetricsSummary m) = 30" "p95 (printMetricsSummary m) = 50"
    by (simp_all add: summary_percentiles_div at_index_def nullish_def)
next
  assume "requestDurations m = []"
  then show "p50 (printMetricsSummary m) = 0" "p95 (printMetricsSummary m) = 0"
    "p99 (printMetricsSummary m) = 0"
    by (simp_all add: summary_percentiles_div at_index_def nullish_def)
qed

theorem percentiles_nearest_rank_witness:
  "requestDurations (record_all [Succeeded 40, Succeeded 10, Succeeded 50, Succeeded 30,
                                 Succeeded 20] createMetrics) = [40, 10, 50, 30, 20]
   \<and> sorted [10, 20, 30, 40, 50 :: int]
   \<and> p50 (printMetricsSummary (record_all [Succeeded 40, Succeeded 10, Succeeded 50,
                                            Succeeded 30, Succeeded 20] createMetrics)) = 30
   \<and> p95 (printMetricsSummary (record_all [Succeeded 40, Succeeded 10, Succeeded 50,
                                            Succeeded 30, Succeeded 20] createMetrics)) = 50
   \<and> p99 (printMetricsSummary (record_all [Succeeded 40, Succeeded 10, Succeeded 50,
                                            Succeeded 30, Succeeded 20] createMetrics)) = 50"
proof -
  define M where "M = record_all [Succeeded 40, Succeeded 10, Succeeded 50, Succeeded 30,
                                  Succeeded 20] createMetrics"
  have d: "requestDurations M = [40, 10, 50, 30, 20]"
    by (simp add: M_def recordSuccess_def createMetrics_def)
  have s: "sorted [10, 20, 30, 40, 50 :: int]" by simp
  have p: "mset [10, 20, 30, 40, 50 :: int] = mset (requestDurations M)"
    by (simp add: d)
  have i50: "nat \<lfloor>of_nat (length [10, 20, 30, 40, 50 :: int]) * (50 / 100 :: rat)\<rfloor> = 2"
    by (simp, linarith)
  have i95: "nat \<lfloor>of_nat (length [10, 20, 30, 40, 50 :: int]) * (95 / 100 :: rat)\<rfloor> = 4"
    by (simp, linarith)
  have i99: "nat \<lfloor>of_nat (length [10, 20, 30, 40, 50 :: int]) * (99 / 100 :: rat)\<rfloor> = 4"
    by (simp, linarith)
  note t = percentiles_nearest_rank [of M, THEN conjunct1, rule_format,
             of "[10, 20, 30, 40, 50]", OF conjI [OF s p]]
  have "p50 (printMetricsSummary M) = 30 \<and> p95 (printMetricsSummary M) = 50
      \<and> p99 (printMetricsSummary M) = 50"
    using t by (simp only: i50 i95 i99) simp
  with d s show ?thesis by (simp only: M_def) 
qed

subsection \<open>The average\<close>

lemma record_all_total:
  "totalRequests (record_all evs m) = totalRequests m + length evs"
  by (induction evs m rule: record_all.induct)
     (simp_all add: recordSuccess_def recordError_def Let_def)

lemma record_all_successful:
  "successfulRequests (record_all evs m) = successfulRequests m + sum_list (map successes evs)"
  by (induction evs m rule: record_all.induct)
     (simp_all add: recordSuccess_def recordError_def Let_def)

lemma record_all_failed:
  "failedRequests (record_all evs m) + sum_list (map successes evs)
     = failedRequests m + length evs"
  by (induction evs m rule: record_all.induct)
     (simp_all add: recordSuccess_def recordError_def Let_def)

lemma record_all_rateLimit:
  "rateLimitErrors (record_all evs m) = rateLimitErrors m + sum_list (map rateLimited evs)"
  by (induction evs m rule: record_all.induct)
     (simp_all add: recordSuccess_def recordError_def Let_def createMetrics_def)

lemma record_all_other:
  "otherErrors (record_all evs m) = otherErrors m + sum_list (map others evs)"
  by (induction evs m rule: record_all.induct)
     (simp_all add: recordSuccess_def recordError_def Let_def createMetrics_def)

lemma record_all_durations_length:
  "length (requestDurations (record_all evs m))
     = length (requestDurations m) + sum_list (map successes evs)"
  by (induction evs m rule: record_all.induct)
     (simp_all add: recordSuccess_def recordError_def Let_def)

lemma record_all_durations_sum:
  "sum_list (requestDurations (record_all evs m))
     = sum_list (requestDurations m) + sum_list (map duration evs)"
  by (induction evs m rule: record_all.induct)
     (simp_all add: recordSuccess_def recordError_def Let_def)

lemma sum_list_map_mset:
  fixes f :: "'a \<Rightarrow> 'b :: comm_monoid_add"
  shows "sum_list (map f xs) = sum_mset (image_mset f (mset xs))"
  by (induction xs) (simp_all add: ac_simps)

lemma mixed_scenario:
  assumes "mset evs = {#Succeeded 10, Succeeded 20, Succeeded 30,
                        Failed \<lparr>Error.message = ''rate limit exceeded''\<rparr> t1,
                        Failed \<lparr>Error.message = ''internal error''\<rparr> t2#}"
  shows "totalRequests (record_all evs createMetrics) = 5
       \<and> successfulRequests (record_all evs createMetrics) = 3
       \<and> failedRequests (record_all evs createMetrics) = 2
       \<and> rateLimitErrors (record_all evs createMetrics) = 1
       \<and> otherErrors (record_all evs createMetrics) = 1
       \<and> avgDuration (printMetricsSummary (record_all evs createMetrics)) = Num 20"
proof -
  have len: "length evs = 5"
    using arg_cong [OF assms, of size] by simp
  have succ: "sum_list (map successes evs) = 3"
    by (simp add: sum_list_map_mset assms)
  have dur: "sum_list (map duration evs) = 60"
    by (simp add: sum_list_map_mset assms)
  have rl: "sum_list (map rateLimited evs) = 1"
    by (simp add: sum_list_map_mset assms recordError_def Let_def createMetrics_def
          toLowerCase_def toLowerChar_def)
  have ot: "sum_list (map others evs) = 1"
    by (simp add: sum_list_map_mset assms recordError_def Let_def createMetrics_def
          toLowerCase_def toLowerChar_def)
  have f: "failedRequests (record_all evs createMetrics) = 2"
    using record_all_failed [of evs createMetrics] by (simp add: succ len createMetrics_def)
  have l: "length (requestDurations (record_all evs createMetrics)) = 3"
    by (simp add: record_all_durations_length succ createMetrics_def)
  have s: "sum_list (requestDurations (record_all evs createMetrics)) = 60"
    by (simp add: record_all_durations_sum dur createMetrics_def)
  have ne: "requestDurations (record_all evs createMetrics) \<noteq> []"
    using l by auto
  have avg: "avgDuration (printMetricsSummary (record_all evs createMetrics)) = Num 20"
    by (simp add: avgDuration_mean ne l s)
  have t: "totalRequests (record_all evs createMetrics) = 5"
    by (simp add: record_all_total len createMetrics_def)
  have sc: "successfulRequests (record_all evs createMetrics) = 3"
    by (simp add: record_all_successful succ createMetrics_def)
  have r: "rateLimitErrors (record_all evs createMetrics) = 1"
    by (simp add: record_all_rateLimit rl createMetrics_def)
  have o: "otherErrors (record_all evs createMetrics) = 1"
    by (simp add: record_all_other ot createMetrics_def)
  from t sc f r o avg show ?thesis by blast
qed

text \<open>
  C7. The reported average is the arithmetic mean of \<open>requestDurations\<close>, and 0 when
  there are none. Three successes with durations 10, 20, 30 and two failures with the
  messages "rate limit exceeded" and "internal error", recorded into a fresh Metrics in
  any order, give 5 requests, 3 successful, 2 failed, 1 rate-limit error, 1 other
  error and the average 20.
\<close>

theorem average_and_mixed_scenario:
  "avgDuration (printMetricsSummary m) =
     (if requestDurations m = [] then Num 0
      else Num (of_int (sum_list (requestDurations m)) / of_nat (length (requestDurations m))))
   \<and> (mset evs = {#Succeeded 10, Succeeded 20, Succeeded 30,
                     Failed \<lparr>Error.message = ''rate limit exceeded''\<rparr> t1,
                     Failed \<lparr>Error.message = ''internal error''\<rparr> t2#} \<longrightarrow>
         totalRequests (record_all evs createMetrics) = 5
       \<and> successfulRequests (record_all evs createMetrics) = 3
       \<and> failedRequests (record_all evs createMetrics) = 2
       \<and> rateLimitErrors (record_all evs createMetrics) = 1
       \<and> otherErrors (record_all evs createMetrics) = 1
       \<and> avgDuration (printMetricsSummary (record_all evs createMetrics)) = Num 20)"
  using avgDuration_mean [of m] mixed_scenario [of evs t1 t2] by blast

theorem average_and_mixed_scenario_witness:
  "totalRequests (record_all [Succeeded 10, Failed \<lparr>Error.message = ''rate limit exceeded''\<rparr> 1,
      Succeeded 20, Failed \<lparr>Error.message = ''internal error''\<rparr> 2, Succeeded 30]
      createMetrics) = 5
   \<and> rateLimitErrors (record_all [Succeeded 10, Failed \<lparr>Error.message = ''rate limit exceeded''\<rparr> 1,
      Succeeded 20, Failed \<lparr>Error.message = ''internal error''\<rparr> 2, Succeeded 30]
      createMetrics) = 1
   \<and> avgDuration (printMetricsSummary (record_all [Succeeded 10,
      Failed \<lparr>Error.message = ''rate limit exceeded''\<rparr> 1,
      Succeeded 20, Failed \<lparr>Error.message = ''internal error''\<rparr> 2, Succeeded 30]
      createMetrics)) = Num 20"
proof -
  have p: "mset [Succeeded 10, Failed \<lparr>Error.message = ''rate limit exceeded''\<rparr> 1,
             Succeeded 20, Failed \<lparr>Error.message = ''internal error''\<rparr> 2, Succeeded 30]
           = {#Succeeded 10, Succeeded 20, Succeeded 30,
               Failed \<lparr>Error.message = ''rate limit exceeded''\<rparr> 1,
               Failed \<lparr>Error.message = ''internal error''\<rparr> 2#}"
    by simp
  from average_and_mixed_scenario [THEN conjunct2, rule_format, OF p]
  show ?thesis by blast
qed

subsection \<open>The divisions without a guard\<close>

lemma successfulPct_eq:
  "successfulPct (printMetricsSummary m) =
     (if totalRequests m = 0 then (if successfulRequests m = 0 then NaN else PosInf)
      else Num (of_nat (successfulRequests m) / of_nat (totalRequests m) * 100))"
  by (simp add: printMetricsSummary_def Let_def js_div_Num js_div_by_zero js_mul_100)

lemma failedPct_eq:
  "failedPct (printMetricsSummary m) =
     (if totalRequests m = 0 then (if failedRequests m = 0 then NaN else PosInf)
      else Num (of_nat (failedRequests m) / of_nat (totalRequests m) * 100))"
  by (simp add: printMetricsSummary_def Let_def js_div_Num js_div_by_zero js_mul_100)

lemma throughput_zero_duration:
  "totalDurationMs m = 0 \<Longrightarrow>
     throughput (printMetricsSummary m) = (if totalRequests m = 0 then NaN else PosInf)"
  by (simp add: printMetricsSummary_def Let_def js_div_Num js_div_by_zero)

lemma throughput_finite:
  "is_finite (throughput (printMetricsSummary m)) \<longleftrightarrow> totalDurationMs m \<noteq> 0"
proof (cases "totalDurationMs m = 0")
  case True
  then show ?thesis by (simp add: throughput_zero_duration)
next
  case False
  then show ?thesis
    by (simp add: printMetricsSummary_def Let_def js_div_Num js_div_def zero_signed_def)
qed

text \<open>
  C10. Only the average is guarded. With \<open>totalRequests = 0\<close> the two percentages
  divide by zero (the result is \<open>NaN\<close>, or \<open>Infinity\<close> for a non-zero numerator), with
  \<open>totalDurationMs = 0\<close> the throughput does; the three are finite exactly when their
  divisor is not zero, while the average is always finite and is 0 with no durations.
\<close>

theorem summary_divisions_unguarded:
  "(is_finite (successfulPct (printMetricsSummary m)) \<longleftrightarrow> totalRequests m \<noteq> 0)
   \<and> (is_finite (failedPct (printMetricsSummary m)) \<longleftrightarrow> totalRequests m \<noteq> 0)
   \<and> (is_finite (throughput (printMetricsSummary m)) \<longleftrightarrow> totalDurationMs m \<noteq> 0)
   \<and> (totalRequests m = 0 \<longrightarrow>
         successfulPct (printMetricsSummary m)
           = (if successfulRequests m = 0 then NaN else PosInf)
       \<and> failedPct (printMetricsSummary m)
           = (if failedRequests m = 0 then NaN else PosInf))
   \<and> (totalDurationMs m = 0 \<longrightarrow>
         throughput (printMetricsSummary m) = (if totalRequests m = 0 then NaN else PosInf))
   \<and> is_finite (avgDuration (printMetricsSummary m))
   \<and> (requestDurations m = [] \<longrightarrow> avgDuration (printMetricsSummary m) = Num 0)"
proof -
  have a: "is_finite (successfulPct (printMetricsSummary m)) \<longleftrightarrow> totalRequests m \<noteq> 0"
    by (simp add: successfulPct_eq)
  have b: "is_finite (failedPct (printMetricsSummary m)) \<longleftrightarrow> totalRequests m \<noteq> 0"
    by (simp add: failedPct_eq)
  have c: "totalRequests m = 0 \<longrightarrow>
         successfulPct (printMetricsSummary m)
           = (if successfulRequests m = 0 then NaN else PosInf)
       \<and> failedPct (printMetricsSummary m)
           = (if failedRequests m = 0 then NaN else PosInf)"
    by (simp add: successfulPct_eq failedPct_eq)
  have d: "totalDurationMs m = 0 \<longrightarrow>
         throughput (printMetricsSummary m) = (if totalRequests m = 0 then NaN else PosInf)"
    by (simp add: throughput_zero_duration)
  have e: "is_finite (avgDuration (printMetricsSummary m))"
    by (simp add: avgDuration_mean)
  have f: "requestDurations m = [] \<longrightarrow> avgDuration (printMetricsSummary m) = Num 0"
    by (simp add: avgDuration_mean)
  from a b throughput_finite [of m] c d e f show ?thesis by blast
qed

theorem summary_divisions_unguarded_witness:
  "totalRequests createMetrics = 0 \<and> totalDurationMs createMetrics = 0
   \<and> requestDurations createMetrics = []
   \<and> successfulPct (printMetricsSummary createMetrics) = NaN
   \<and> failedPct (printMetricsSummary createMetrics) = NaN
   \<and> throughput (printMetricsSummary createMetrics) = NaN
   \<and> avgDuration (printMetricsSummary createMetrics) = Num 0"
proof -
  have z: "totalRequests createMetrics = 0" "totalDurationMs createMetrics = 0"
    "requestDurations createMetrics = []" "successfulRequests createMetrics = 0"
    "failedRequests createMetrics = 0"
    by (simp_all add: createMetrics_def)
  from summary_divisions_unguarded [of createMetrics] z show ?thesis by simp
qed

section \<open>The scripts\<close>

text \<open>
  C4. After a run the exit code is 0 when the final Metrics have no rate-limit error
  and no failed request, and 1 otherwise.
\<close>

theorem exitCode_contract:
  "exitCode m = (if rateLimitErrors m = 0 \<and> failedRequests m = 0 then 0 else 1)"
  by (simp add: exitCode_def)

subsection \<open>One outcome for each request\<close>

lemma request_eq:
  "request outcome reqStart now m =
     (Fulfilled (),
      case outcome of
        Fulfilled v \<Rightarrow> recordSuccess m (now - reqStart)
      | Rejected e \<Rightarrow> recordError m e now)"
  by (simp add: request_def promise_then_def promise_catch_def split: settled.splits)

lemma request_total:
  "totalRequests (snd (request outcome reqStart now m)) = totalRequests m + 1"
  by (simp add: request_eq recordSuccess_def recordError_def Let_def split: settled.splits)

lemma settle_all_total:
  "totalRequests (snd (settle_all cs m)) = totalRequests m + length cs"
  by (induction cs arbitrary: m) (auto simp add: split_beta request_total Let_def)

lemma settle_all_fulfilled:
  "promise_all (fst (settle_all cs m)) = Fulfilled (replicate (length cs) ())"
  by (induction cs arbitrary: m) (auto simp add: split_beta request_eq Let_def)

lemma settle_all_successful:
  "successfulRequests (snd (settle_all cs m))
     = successfulRequests m
       + length (filter (\<lambda>c. case fst c of Fulfilled v \<Rightarrow> True | Rejected e \<Rightarrow> False) cs)"
  by (induction cs arbitrary: m)
     (auto simp add: split_beta request_eq Let_def recordSuccess_def recordError_def
        split: settled.splits)

lemma settle_all_failed:
  "failedRequests (snd (settle_all cs m))
     = failedRequests m
       + length (filter (\<lambda>c. case fst c of Fulfilled v \<Rightarrow> False | Rejected e \<Rightarrow> True) cs)"
  by (induction cs arbitrary: m)
     (auto simp add: split_beta request_eq Let_def recordSuccess_def recordError_def
        split: settled.splits)

text \<open>
  C5. A request records exactly one outcome: its promise is always fulfilled (no error
  leaves it), the Metrics after it are those of one \<open>recordSuccess\<close> call when the
  operation succeeded and of one \<open>recordError\<close> call when it failed, and
  \<open>totalRequests\<close> goes up by exactly 1. Over a run, \<open>Promise.all\<close> is fulfilled, and
  the total, the successes and the failures count the requests, the fulfilled and
  the rejected operations.
\<close>

theorem request_records_once:
  "request outcome reqStart now m =
     (Fulfilled (),
      case outcome of
        Fulfilled v \<Rightarrow> recordSuccess m (now - reqStart)
      | Rejected e \<Rightarrow> recordError m e now)
   \<and> totalRequests (snd (request outcome reqStart now m)) = totalRequests m + 1
   \<and> promise_all (fst (settle_all cs m)) = Fulfilled (replicate (length cs) ())
   \<and> totalRequests (snd (settle_all cs m)) = totalRequests m + length cs
   \<and> successfulRequests (snd (settle_all cs m))
       = successfulRequests m
         + length (filter (\<lambda>c. case fst c of Fulfilled v \<Rightarrow> True | Rejected e \<Rightarrow> False) cs)
   \<and> failedRequests (snd (settle_all cs m))
       = failedRequests m
         + length (filter (\<lambda>c. case fst c of Fulfilled v \<Rightarrow> False | Rejected e \<Rightarrow> True) cs)"
  using request_eq [of outcome reqStart now m] request_total [of outcome reqStart now m]
    settle_all_fulfilled [of cs m] settle_all_total [of cs m]
    settle_all_successful [of cs m] settle_all_failed [of cs m]
  by blast

subsection \<open>The wait between two requests\<close>

lemma js_sub_positive:
  "js_lt (Num e) iv \<Longrightarrow> js_lt (Num 0) (js_sub iv (Num e)) \<and> \<not> js_lt (js_sub iv (Num e)) (Num 0)"
  by (cases iv) (auto simp add: js_lt_def js_sub_def zero_signed_def inf_signed_def)

lemma nextDelay_positive:
  "nextDelay iv reqStart now = Some d \<Longrightarrow> js_lt (Num 0) d \<and> \<not> js_lt d (Num 0)"
  by (auto simp add: nextDelay_def Let_def js_sub_positive split: if_splits)

lemma sustained_delays_positive:
  "\<forall>d \<in> set (delays (sustained iv endTime clock)). js_lt (Num 0) d \<and> \<not> js_lt d (Num 0)"
proof (induction iv endTime clock rule: sustained.induct)
  case (1 interval endTime t reqStart now clock)
  then show ?case
    by (auto simp add: nextDelay_positive split: option.splits)
qed simp_all

text \<open>The interval for each value \<open>options.rps\<close> can have.\<close>

lemma intervalMs_values:
  "r \<noteq> 0 \<Longrightarrow> intervalMs (Num r) = Num (1000 / r)"
  "intervalMs (Num 0) = PosInf"
  "intervalMs NegZero = NegInf"
  "intervalMs NaN = NaN"
  "intervalMs PosInf = Num 0"
  "intervalMs NegInf = NegZero"
  by (simp_all add: intervalMs_def js_div_def zero_signed_def inf_signed_def)

text \<open>The wait as a number: the interval less the elapsed time, when that is positive.\<close>

lemma nextDelay_Num:
  "nextDelay (Num q) reqStart now =
     (if of_int (now - reqStart) < q then Some (Num (q - of_int (now - reqStart))) else None)"
  by (auto simp add: nextDelay_def Let_def js_lt_def js_sub_def)

lemma nextDelay_special:
  "nextDelay PosInf reqStart now = Some PosInf"
  "nextDelay NegInf reqStart now = None"
  "nextDelay NaN reqStart now = None"
  "nextDelay NegZero reqStart now =
     (if now < reqStart then Some (Num (of_int (reqStart - now))) else None)"
  by (auto simp add: nextDelay_def Let_def js_lt_def js_sub_def)

lemma nextDelay_value:
  assumes "r \<noteq> 0"
  shows "nextDelay (intervalMs (Num r)) reqStart now =
           (if of_int (now - reqStart) < 1000 / r
            then Some (Num (1000 / r - of_int (now - reqStart))) else None)"
proof -
  have "intervalMs (Num r) = Num (1000 / r)"
    using assms by (rule intervalMs_values(1))
  then show ?thesis by (simp only: nextDelay_Num)
qed

lemma sustained_value:
  assumes "r \<noteq> 0"
  shows "sustained (intervalMs (Num r)) endTime (t # reqStart # now # clock) =
           (if js_lt (Num (of_int t)) endTime
            then Dispatch reqStart
                   # (if of_int (now - reqStart) < 1000 / r
                      then [Sleep (Num (1000 / r - of_int (now - reqStart)))] else [])
                   @ sustained (intervalMs (Num r)) endTime clock
            else [])"
  unfolding sustained.simps nextDelay_value [OF assms] by auto

text \<open>
  C6. After a dispatch the loop waits for \<open>intervalMs - elapsed\<close>, the number
  \<open>1000 / rps - (now - reqStart)\<close>, when \<open>elapsed < intervalMs\<close>, and does not wait
  otherwise; the next iteration follows with the same interval, whatever the overrun
  was (no catching up). For the rates that are not a non-zero number: rate 0 waits
  for \<open>Infinity\<close>, and \<open>NaN\<close> and the negative zero never wait. Every wait the loop
  computes is positive, never negative, for every \<open>options.rps\<close> and every clock.
\<close>

theorem sustained_wait:
  "(r \<noteq> 0 \<longrightarrow>
      nextDelay (intervalMs (Num r)) reqStart now =
        (if of_int (now - reqStart) < 1000 / r
         then Some (Num (1000 / r - of_int (now - reqStart))) else None))
   \<and> (r \<noteq> 0 \<longrightarrow>
      sustained (intervalMs (Num r)) endTime (t # reqStart # now # clock) =
        (if js_lt (Num (of_int t)) endTime
         then Dispatch reqStart
                # (if of_int (now - reqStart) < 1000 / r
                   then [Sleep (Num (1000 / r - of_int (now - reqStart)))] else [])
                @ sustained (intervalMs (Num r)) endTime clock
         else []))
   \<and> nextDelay (intervalMs (Num 0)) reqStart now = Some PosInf
   \<and> nextDelay (intervalMs NaN) reqStart now = None
   \<and> nextDelay (intervalMs NegZero) reqStart now = None
   \<and> nextDelay (intervalMs rps) reqStart now =
        (if js_lt (Num (of_int (now - reqStart))) (intervalMs rps)
         then Some (js_sub (intervalMs rps) (Num (of_int (now - reqStart))))
         else None)
   \<and> (\<forall>d. nextDelay (intervalMs rps) reqStart now = Some d \<longrightarrow>
          js_lt (Num 0) d \<and> \<not> js_lt d (Num 0))
   \<and> (js_lt (Num (of_int t)) endTime \<longrightarrow>
        sustained (intervalMs rps) endTime (t # reqStart # now # clock) =
          Dispatch reqStart
            # (case nextDelay (intervalMs rps) reqStart now of
                 Some d \<Rightarrow> [Sleep d] | None \<Rightarrow> [])
            @ sustained (intervalMs rps) endTime clock)
   \<and> (\<forall>d \<in> set (delays (sustained (intervalMs rps) endTime clock)).
          js_lt (Num 0) d \<and> \<not> js_lt d (Num 0))"
proof -
  have v: "r \<noteq> 0 \<longrightarrow>
      nextDelay (intervalMs (Num r)) reqStart now =
        (if of_int (now - reqStart) < 1000 / r
         then Some (Num (1000 / r - of_int (now - reqStart))) else None)"
    using nextDelay_value by blast
  have w: "r \<noteq> 0 \<longrightarrow>
      sustained (intervalMs (Num r)) endTime (t # reqStart # now # clock) =
        (if js_lt (Num (of_int t)) endTime
         then Dispatch reqStart
                # (if of_int (now - reqStart) < 1000 / r
                   then [Sleep (Num (1000 / r - of_int (now - reqStart)))] else [])
                @ sustained (intervalMs (Num r)) endTime clock
         else [])"
    using sustained_value by blast
  have z: "nextDelay (intervalMs (Num 0)) reqStart now = Some PosInf"
    "nextDelay (intervalMs NaN) reqStart now = None"
    "nextDelay (intervalMs NegZero) reqStart now = None"
    by (simp_all only: intervalMs_values nextDelay_special)
  have a: "nextDelay (intervalMs rps) reqStart now =
     (if js_lt (Num (of_int (now - reqStart))) (intervalMs rps)
      then Some (js_sub (intervalMs rps) (Num (of_int (now - reqStart))))
      else None)"
    by (simp add: nextDelay_def Let_def)
  have b: "\<forall>d. nextDelay (intervalMs rps) reqStart now = Some d \<longrightarrow>
          js_lt (Num 0) d \<and> \<not> js_lt d (Num 0)"
    using nextDelay_positive by blast
  have c: "js_lt (Num (of_int t)) endTime \<longrightarrow>
        sustained (intervalMs rps) endTime (t # reqStart # now # clock) =
          Dispatch reqStart
            # (case nextDelay (intervalMs rps) reqStart now of
                 Some d \<Rightarrow> [Sleep d] | None \<Rightarrow> [])
            @ sustained (intervalMs rps) endTime clock"
    by simp
  from v w z a b c sustained_delays_positive [of "intervalMs rps" endTime clock]
  show ?thesis by blast
qed

theorem sustained_wait_witness:
  "(10 :: rat) \<noteq> 0
   \<and> nextDelay (intervalMs (Num 10)) 1000 1030 = Some (Num 70)
   \<and> js_lt (Num 0) (Num 70)
   \<and> nextDelay (intervalMs (Num 10)) 1100 1250 = None
   \<and> js_lt (Num 1000) (Num 3000)
   \<and> sustained (intervalMs (Num 10)) (Num 3000) [1000, 1000, 1030, 1100, 1100, 1250, 3000]
       = [Dispatch 1000, Sleep (Num 70), Dispatch 1100]
   \<and> Num 70 \<in> set (delays (sustained (intervalMs (Num 10)) (Num 3000)
                              [1000, 1000, 1030, 1100, 1100, 1250, 3000]))"
proof -
  have nz: "(10 :: rat) \<noteq> 0" by simp
  have lt: "js_lt (Num 1000) (Num 3000)" "js_lt (Num 1100) (Num 3000)"
    "\<not> js_lt (Num 3000) (Num 3000)"
    by (simp_all add: js_lt_def)
  note t1 = sustained_wait [of 10 1000 1030 "Num 3000" 1000 "[1100, 1100, 1250, 3000]" "Num 10"]
  note t2 = sustained_wait [of 10 1100 1250 "Num 3000" 1100 "[3000]" "Num 10"]
  have d1: "nextDelay (intervalMs (Num 10)) 1000 1030 = Some (Num 70)"
    using t1 [THEN conjunct1, rule_format, OF nz] by simp
  have d2: "nextDelay (intervalMs (Num 10)) 1100 1250 = None"
    using t2 [THEN conjunct1, rule_format, OF nz] by simp
  have s2: "sustained (intervalMs (Num 10)) (Num 3000) [1100, 1100, 1250, 3000]
              = [Dispatch 1100]"
    using t2 [THEN conjunct2, THEN conjunct1, rule_format, OF nz] lt by simp
  have run: "sustained (intervalMs (Num 10)) (Num 3000) [1000, 1000, 1030, 1100, 1100, 1250, 3000]
       = [Dispatch 1000, Sleep (Num 70), Dispatch 1100]"
    using t1 [THEN conjunct2, THEN conjunct1, rule_format, OF nz] lt s2 by simp
  have mem: "Num 70 \<in> set (delays (sustained (intervalMs (Num 10)) (Num 3000)
                              [1000, 1000, 1030, 1100, 1100, 1250, 3000]))"
    unfolding run by simp
  note t3 = sustained_wait [of 10 1000 1030 "Num 3000" 1000
                              "[1000, 1000, 1030, 1100, 1100, 1250, 3000]" "Num 10"]
  have p1: "js_lt (Num 0) (Num 70)"
    using t1 [THEN conjunct2, THEN conjunct2, THEN conjunct2, THEN conjunct2, THEN conjunct2,
              THEN conjunct2, THEN conjunct1, rule_format, OF d1] by blast
  have p2: "js_lt (Num 0) (Num 70)"
    using t3 [THEN conjunct2, THEN conjunct2, THEN conjunct2, THEN conjunct2, THEN conjunct2,
              THEN conjunct2, THEN conjunct2, THEN conjunct2, rule_format, OF mem] by blast
  from nz d1 p1 d2 lt(1) run mem show ?thesis by blast
qed

section \<open>The summary leaves the Metrics as they are\<close>

lemma spread_sort:
  "r < length h \<Longrightarrow> sort_array (fst (spread h r)) (snd (spread h r)) = h @ [sort (h ! r)]"
  by (simp add: spread_def sort_array_def nth_append)

lemma printMetricsSummary_store_eq:
  assumes "r < length h"
  shows "printMetricsSummary_store h r m =
           (printMetricsSummary (m\<lparr>requestDurations := h ! r\<rparr>), h @ [sort (h ! r)])"
  using assms
  by (simp add: printMetricsSummary_store_def printMetricsSummary_def Let_def split_beta
        spread_sort) (simp add: spread_def)

text \<open>
  C8. For a Metrics object whose durations array is at \<open>r\<close>: the summary leaves every
  array that was in the store as it was (the array at \<open>r\<close> among them; the sorted one
  is a new array), a second summary of the same Metrics has the same fields as the
  first, and both are the summary of the Metrics with the durations found at \<open>r\<close>.
\<close>

theorem summary_keeps_metrics:
  assumes "r < length h"
  shows "fst (printMetricsSummary_store (snd (printMetricsSummary_store h r m)) r m)
           = fst (printMetricsSummary_store h r m)
       \<and> take (length h) (snd (printMetricsSummary_store h r m)) = h
       \<and> snd (printMetricsSummary_store h r m) ! r = h ! r
       \<and> take (length h)
           (snd (printMetricsSummary_store (snd (printMetricsSummary_store h r m)) r m)) = h
       \<and> fst (printMetricsSummary_store h r m)
           = printMetricsSummary (m\<lparr>requestDurations := h ! r\<rparr>)"
proof -
  have r': "r < length (h @ [sort (h ! r)])" using assms by simp
  show ?thesis
    using assms
    by (simp add: printMetricsSummary_store_eq [OF assms] printMetricsSummary_store_eq [OF r']
          nth_append)
qed

theorem summary_keeps_metrics_witness:
  "(0 :: nat) < length [[30, 10, 20 :: int]]
   \<and> snd (printMetricsSummary_store [[30, 10, 20]] 0
            (record_all [Succeeded 30, Succeeded 10, Succeeded 20] createMetrics)) ! 0
       = [30, 10, 20]
   \<and> snd (printMetricsSummary_store [[30, 10, 20]] 0
            (record_all [Succeeded 30, Succeeded 10, Succeeded 20] createMetrics))
       = [[30, 10, 20], [10, 20, 30]]
   \<and> fst (printMetricsSummary_store
            (snd (printMetricsSummary_store [[30, 10, 20]] 0
                   (record_all [Succeeded 30, Succeeded 10, Succeeded 20] createMetrics))) 0
            (record_all [Succeeded 30, Succeeded 10, Succeeded 20] createMetrics))
       = fst (printMetricsSummary_store [[30, 10, 20]] 0
               (record_all [Succeeded 30, Succeeded 10, Succeeded 20] createMetrics))"
proof -
  have l: "(0 :: nat) < length [[30, 10, 20 :: int]]" by simp
  have s: "snd (printMetricsSummary_store [[30, 10, 20]] 0
            (record_all [Succeeded 30, Succeeded 10, Succeeded 20] createMetrics))
       = [[30, 10, 20], [10, 20, 30]]"
    by (simp add: printMetricsSummary_store_def spread_def sort_array_def Let_def)
  from summary_keeps_metrics [OF l,
         of "record_all [Succeeded 30, Succeeded 10, Succeeded 20] createMetrics"] l s
  show ?thesis by simp
qed

end
